theory Spec2Isabelle
  imports Complex_Main "HOL-Library.Multiset"
begin

section \<open>The Yarn task provider (src/taskProviderYarn.ts)\<close>

subsection \<open>Scanner events and the visitor of \<open>findTargets\<close>\<close>

text \<open>
  A JSON literal as \<open>onLiteralValue\<close> receives it (\<open>value: any\<close>).  The visitor only
  asks \<open>typeof value === 'string'\<close> and otherwise stores the value unchanged, so numbers
  are kept as rationals; floating point rounding plays no role.
\<close>

datatype literal = LString string | LNumber rat | LBoolean bool | LNull

text \<open>
  The calls that \<open>visit(documentText, visitor)\<close> of the jsonc-parser library makes on a
  \<open>JSONVisitor\<close>, in the order of the scan.  Property names and literals come with their
  offset; the length argument is ignored by every handler (\<open>_length\<close>) and is left out,
  as are \<open>onSeparator\<close> and \<open>onComment\<close>, for which this visitor has no handler.
  The visitor has no handler for \<open>onObjectBegin\<close>, \<open>onArrayBegin\<close> and
  \<open>onArrayEnd\<close> either; they are kept to show the nesting of a document.
\<close>

datatype event =
    OnObjectBegin
  | OnObjectProperty string nat
  | OnObjectEnd
  | OnArrayBegin
  | OnArrayEnd
  | OnLiteralValue literal nat
  | OnError

text \<open>
  The local variables of \<open>findTargets\<close> that the visitor closes over.  \<open>scripts\<close> is a
  JavaScript object used as a dictionary: an association list in insertion order.
  \<open>script\<close> is declared without an initial value and \<open>inTaskLabel\<close> starts as
  \<open>undefined\<close>: both are options.
\<close>

record visitor_state =
  scriptOffset :: nat
  inScripts :: bool
  inTasks :: bool
  inTaskLabel :: "string option"
  scripts :: "(string \<times> literal) list"
  script :: "string option"

definition initial :: visitor_state where
  "initial = \<lparr> scriptOffset = 0, inScripts = False, inTasks = False,
       inTaskLabel = None, scripts = [], script = None \<rparr>"

text \<open>JavaScript truthiness of a value that is \<open>undefined\<close> or a string.\<close>

definition truthy :: "string option \<Rightarrow> bool" where
  "truthy s = (case s of None \<Rightarrow> False | Some t \<Rightarrow> t \<noteq> [])"

text \<open>
  \<open>obj[key] = value\<close> on an ordinary object: the key is converted to a string
  (\<open>undefined\<close> becomes the key \<open>"undefined"\<close>); an existing own property keeps its
  place and gets the new value, a new one is added at the end.  Assigning a primitive
  or \<open>null\<close> to \<open>__proto__\<close> creates no own property.
\<close>

definition propertyKey :: "string option \<Rightarrow> string" where
  "propertyKey s = (case s of None \<Rightarrow> ''undefined'' | Some k \<Rightarrow> k)"

fun assign :: "(string \<times> 'v) list \<Rightarrow> string \<Rightarrow> 'v \<Rightarrow> (string \<times> 'v) list" where
  "assign [] k v = [(k, v)]"
| "assign ((k', v') # kvs) k v =
     (if k' = k then (k, v) # kvs else (k', v') # assign kvs k v)"

definition setProperty ::
  "(string \<times> literal) list \<Rightarrow> string option \<Rightarrow> literal \<Rightarrow> (string \<times> literal) list" where
  "setProperty obj s v =
     (let k = propertyKey s in if k = ''__proto__'' then obj else assign obj k v)"

fun isString :: "literal \<Rightarrow> bool" where
  "isString (LString s) = True"
| "isString v = False"

text \<open>The four handlers of the visitor (lines 162-211).\<close>

definition onObjectEnd :: "visitor_state \<Rightarrow> visitor_state" where
  "onObjectEnd st = (if inScripts st then st\<lparr>inScripts := False\<rparr> else st)"

definition onLiteralValue :: "literal \<Rightarrow> nat \<Rightarrow> visitor_state \<Rightarrow> visitor_state" where
  "onLiteralValue v offset st =
     (if inScripts st then st\<lparr>scripts := setProperty (scripts st) (script st) v\<rparr>
      else if truthy (inTaskLabel st) then
        (let st1 =
           (if isString v then
              (if inTaskLabel st = Some ''label''
               then st\<lparr>scripts := setProperty (scripts st) (script st) v\<rparr>
               else st)
            else st)
         in st1\<lparr>inTaskLabel := None\<rparr>)
      else st)"

definition onObjectProperty :: "string \<Rightarrow> nat \<Rightarrow> visitor_state \<Rightarrow> visitor_state" where
  "onObjectProperty property offset st =
     (if property = ''scripts'' then st\<lparr>inScripts := True\<rparr>
      else if inScripts st then st\<lparr>script := Some property\<rparr>
      else if property = ''tasks'' then
        (let st1 = st\<lparr>inTasks := True\<rparr>
         in if \<not> truthy (inTaskLabel st1) then st1\<lparr>scriptOffset := offset\<rparr> else st1)
      else if property = ''label'' \<and> inTasks st \<and> \<not> truthy (inTaskLabel st) then
        (let st1 = st\<lparr>inTaskLabel := Some ''label''\<rparr>
         in if \<not> truthy (inTaskLabel st1) then st1\<lparr>scriptOffset := offset\<rparr> else st1)
      else st\<lparr>inTaskLabel := None\<rparr>)"

text \<open>
  One call of the scanner on the visitor.  \<open>onError\<close> only returns \<open>scriptOffset\<close>, a
  value the library discards, and changes nothing.
\<close>

fun dispatch :: "event \<Rightarrow> visitor_state \<Rightarrow> visitor_state" where
  "dispatch (OnObjectProperty property offset) st = onObjectProperty property offset st"
| "dispatch (OnLiteralValue v offset) st = onLiteralValue v offset st"
| "dispatch OnObjectEnd st = onObjectEnd st"
| "dispatch OnError st = st"
| "dispatch OnObjectBegin st = st"
| "dispatch OnArrayBegin st = st"
| "dispatch OnArrayEnd st = st"

definition visitAll :: "event list \<Rightarrow> visitor_state \<Rightarrow> visitor_state" where
  "visitAll evs st = fold dispatch evs st"

subsection \<open>Well-formed documents\<close>

text \<open>
  A parsed JSON document, every property name and literal with its offset in the text.
\<close>

datatype json =
    JLiteral literal nat
  | JObject "(string \<times> nat \<times> json) list"
  | JArray "json list"

text \<open>
  Modelled from the spec: the Token Scanner is the \<open>visit\<close> function of the
  jsonc-parser library, which is not under src/.  On well-formed text it produces the
  structural events of the document (object start and end, property name, literal
  value, array start and end) in document order.
\<close>

fun visitValue :: "json \<Rightarrow> event list"
  and visitProperties :: "(string \<times> nat \<times> json) list \<Rightarrow> event list"
  and visitElements :: "json list \<Rightarrow> event list" where
  "visitValue (JLiteral v offset) = [OnLiteralValue v offset]"
| "visitValue (JObject ps) = OnObjectBegin # visitProperties ps @ [OnObjectEnd]"
| "visitValue (JArray xs) = OnArrayBegin # visitElements xs @ [OnArrayEnd]"
| "visitProperties [] = []"
| "visitProperties ((k, offset, v) # ps) =
     OnObjectProperty k offset # visitValue v @ visitProperties ps"
| "visitElements [] = []"
| "visitElements (x # xs) = visitValue x @ visitElements xs"

text \<open>
  A well-formed document of the \<open>scripts\<close> style, \<open>{"scripts": {k1: "v1", ...}}\<close>: each
  member of the scripts object is given by its key, the key's offset, its script string
  and the string's offset.
\<close>

definition scriptMember :: "string \<times> nat \<times> string \<times> nat \<Rightarrow> string \<times> nat \<times> json" where
  "scriptMember m = (case m of (k, keyOffset, v, valueOffset) \<Rightarrow>
     (k, keyOffset, JLiteral (LString v) valueOffset))"

definition scriptsDoc :: "nat \<Rightarrow> (string \<times> nat \<times> string \<times> nat) list \<Rightarrow> json" where
  "scriptsDoc offset ms = JObject [(''scripts'', offset, JObject (map scriptMember ms))]"

definition memberBinding :: "string \<times> nat \<times> string \<times> nat \<Rightarrow> string \<times> literal" where
  "memberBinding m = (case m of (k, keyOffset, v, valueOffset) \<Rightarrow> (k, LString v))"

subsection \<open>JavaScript strings and objects\<close>

text \<open>
  \<open>s.lastIndexOf(c)\<close>, \<open>s.substring(start, end)\<close> and \<open>s.substring(start)\<close>: an absent
  character gives -1; \<open>substring\<close> clamps both arguments to the string and swaps them
  when they are out of order.
\<close>

definition lastIndexOf :: "string \<Rightarrow> char \<Rightarrow> int" where
  "lastIndexOf s c =
     (case dropWhile (\<lambda>x. x \<noteq> c) (rev s) of [] \<Rightarrow> - 1 | x # r \<Rightarrow> int (length r))"

definition clampIndex :: "string \<Rightarrow> int \<Rightarrow> nat" where
  "clampIndex s i = (if i < 0 then 0 else min (nat i) (length s))"

definition substring :: "string \<Rightarrow> int \<Rightarrow> int \<Rightarrow> string" where
  "substring s start finish =
     (let a = clampIndex s start; b = clampIndex s finish
      in take (max a b - min a b) (drop (min a b) s))"

definition substringFrom :: "string \<Rightarrow> int \<Rightarrow> string" where
  "substringFrom s start = substring s start (int (length s))"

text \<open>
  \<open>Object.keys(obj)\<close>: the own keys that are array indices (canonical decimal numerals
  below \<open>2^32 - 1\<close>) in ascending numeric order, then all other keys in insertion order.
\<close>

definition isDigit :: "char \<Rightarrow> bool" where
  "isDigit c = (c \<in> set ''0123456789'')"

definition toNumber :: "string \<Rightarrow> nat" where
  "toNumber s = foldl (\<lambda>n c. 10 * n + (of_char c - 48)) 0 s"

definition isArrayIndex :: "string \<Rightarrow> bool" where
  "isArrayIndex s =
     (s \<noteq> [] \<and> list_all isDigit s \<and> (s = ''0'' \<or> hd s \<noteq> CHR ''0'')
      \<and> toNumber s < 4294967295)"

definition objectKeys :: "(string \<times> 'v) list \<Rightarrow> string list" where
  "objectKeys obj =
     (let ks = map fst obj
      in sort_key toNumber (filter isArrayIndex ks) @ filter (\<lambda>k. \<not> isArrayIndex k) ks)"

text \<open>
  \<open>util.removeFromArray(arr, item)\<close>: the loop leaves in \<open>idx2\<close> the index of the last
  element that is \<open>item\<close> (or -1), and \<open>splice\<close> removes that one element.  The source
  compares object identities with \<open>===\<close>; the model compares values.
\<close>

definition scanStep :: "'a \<Rightarrow> int \<times> int \<Rightarrow> 'a \<Rightarrow> int \<times> int" where
  "scanStep item = (\<lambda>(idx, idx2) each.
     let idx = idx + 1 in (idx, if item = each then idx else idx2))"

definition removeFromArray :: "'a list \<Rightarrow> 'a \<Rightarrow> 'a list" where
  "removeFromArray arr item =
     (let idx2 = snd (foldl (scanStep item) (- 1, - 1) arr)
      in if idx2 \<noteq> - 1 \<and> idx2 < int (length arr)
         then take (nat idx2) arr @ drop (nat idx2 + 1) arr
         else arr)"

subsection \<open>Tasks\<close>

record Uri =
  path :: string
  fsPath :: string

record WorkspaceFolder =
  folder_uri :: Uri
  folder_name :: string
  folder_index :: nat

text \<open>
  \<open>YarnTaskDefinition\<close> as \<open>createYarnTask\<close> fills it (\<open>treeItem\<close> is never set by this
  provider); the fields are \<open>type\<close>, \<open>script\<close>, \<open>path\<close>, \<open>fileName\<close>, \<open>uri\<close>.
\<close>

record YarnTaskDefinition =
  def_type :: string
  def_script :: string
  def_path :: string
  def_fileName :: string
  def_uri :: Uri

text \<open>\<open>new ShellExecution(command, args, options)\<close>, with \<open>options = {cwd}\<close>.\<close>

record ShellExecution =
  command :: string
  args :: "string list"
  cwd :: string

datatype TaskGroup = Clean | Build | Rebuild | Test

text \<open>
  \<open>new Task(definition, scope, name, source, execution, problemMatchers)\<close>; \<open>group\<close>
  is \<open>undefined\<close> until assigned.
\<close>

record Task =
  task_definition :: YarnTaskDefinition
  task_scope :: WorkspaceFolder
  task_name :: string
  task_source :: string
  task_execution :: ShellExecution
  task_group :: "TaskGroup option"

text \<open>The process started by a shell execution: the command, then its arguments.\<close>

definition commandLine :: "ShellExecution \<Rightarrow> string list" where
  "commandLine e = command e # args e"

subsection \<open>The host\<close>

text \<open>
  What the provider takes from its environment: \<open>util.readFile\<close> (\<open>None\<close>: the promise
  is rejected), \<open>util.pathExists\<close>, \<open>workspace.getWorkspaceFolder\<close>,
  \<open>workspace.workspaceFolders\<close>, \<open>workspace.findFiles\<close> with the provider's pattern and
  \<open>util.getExcludesGlob(folder)\<close> (\<open>None\<close>: rejected), \<open>util.isExcluded\<close> under the
  current configuration, the scanner \<open>visit\<close> as the list of calls it makes, and
  \<open>path.dirname\<close> and \<open>path.basename\<close> of the platform.
\<close>

record host =
  readFile :: "string \<Rightarrow> string option"
  pathExists :: "string \<Rightarrow> bool"
  getWorkspaceFolder :: "Uri \<Rightarrow> WorkspaceFolder option"
  workspaceFolders :: "WorkspaceFolder list option"
  findFiles :: "WorkspaceFolder \<Rightarrow> Uri list option"
  isExcluded :: "string \<Rightarrow> bool"
  visit :: "string \<Rightarrow> event list"
  dirname :: "string \<Rightarrow> string"
  basename :: "string \<Rightarrow> string"

datatype error = ReadFileRejected string | FindFilesRejected

text \<open>
  The module variable \<open>cachedTasks\<close> (\<open>None\<close> is \<open>undefined\<close>), and two traces that
  the source does not keep: the paths given to \<open>util.readFile\<close>, in order, and the
  number of calls of \<open>detectYarnfiles\<close>.
\<close>

record provider_state =
  cachedTasks :: "Task list option"
  readLog :: "string list"
  discoveryPasses :: nat

subsection \<open>\<open>findTargets\<close>, \<open>createYarnTask\<close>, \<open>readYarnfile\<close>\<close>

text \<open>
  \<open>findTargets\<close> (lines 149-218): read the file, run the visitor over the scan of its
  text, return the mapping.  The only failure is a rejected read.
\<close>

definition findTargets ::
  "host \<Rightarrow> string \<Rightarrow> provider_state \<Rightarrow> (error + (string \<times> literal) list) \<times> provider_state" where
  "findTargets h fsPath' s =
     (let s1 = s\<lparr>readLog := readLog s @ [fsPath']\<rparr>
      in case readFile h fsPath' of
           None \<Rightarrow> (Inl (ReadFileRejected fsPath'), s1)
         | Some documentText \<Rightarrow> (Inr (scripts (visitAll (visit h documentText) initial)), s1))"

text \<open>
  \<open>createYarnTask\<close> (lines 221-273).  \<open>getCommand\<close> returns the literal \<open>'yarn'\<close>; every
  other way of finding the runner is commented out.  In \<open>getRelativePath\<close> the test
  \<open>if (folder)\<close> always succeeds, \<open>readYarnfile\<close> passing a folder that is not
  \<open>undefined\<close>.
\<close>

definition getCommand :: "WorkspaceFolder \<Rightarrow> string \<Rightarrow> string \<Rightarrow> string" where
  "getCommand folder relativePath cmd = ''yarn''"

definition getRelativePath :: "WorkspaceFolder \<Rightarrow> Uri \<Rightarrow> string" where
  "getRelativePath folder u =
     (let rootUri = folder_uri folder;
          absolutePath = substring (path u) 0 (lastIndexOf (path u) CHR ''/'' + 1)
      in substringFrom absolutePath (int (length (path rootUri)) + 1))"

definition createYarnTask :: "host \<Rightarrow> string \<Rightarrow> string \<Rightarrow> WorkspaceFolder \<Rightarrow> Uri \<Rightarrow> Task" where
  "createYarnTask h target cmd folder u =
     (let kind = \<lparr> def_type = ''yarn'', def_script = target, def_path = [],
                   def_fileName = basename h (path u), def_uri = u \<rparr>;
          relativePath = getRelativePath folder u;
          kind = (if length relativePath \<noteq> 0 then kind\<lparr>def_path := relativePath\<rparr> else kind);
          cwd' = dirname h (fsPath u);
          args' = [getCommand folder relativePath cmd, target];
          execution = \<lparr> command = ''npx'', args = args', cwd = cwd' \<rparr>
      in \<lparr> task_definition = kind, task_scope = folder, task_name = target,
           task_source = ''yarn'', task_execution = execution, task_group = None \<rparr>)"

text \<open>
  \<open>readYarnfile\<close> (lines 121-146).  The tests \<open>if (!scripts)\<close> and \<open>if (task)\<close> are on
  objects, which are never falsy, so every key of the mapping gives one task, in the
  order of \<open>Object.keys\<close>.
\<close>

definition readYarnfile ::
  "host \<Rightarrow> Uri \<Rightarrow> provider_state \<Rightarrow> (error + Task list) \<times> provider_state" where
  "readYarnfile h u s =
     (case getWorkspaceFolder h u of
        None \<Rightarrow> (Inr [], s)
      | Some folder \<Rightarrow>
          (case findTargets h (fsPath u) s of
             (Inl e, s1) \<Rightarrow> (Inl e, s1)
           | (Inr scripts', s1) \<Rightarrow>
               (Inr (map (\<lambda>each. (createYarnTask h each each folder u)\<lparr>task_group := Some Build\<rparr>)
                         (objectKeys scripts')),
                s1)))"

subsection \<open>Discovery and the cache\<close>

text \<open>
  \<open>detectYarnfiles\<close> (lines 85-118): the loop over the files found in one folder, the
  loop over the folders, and the function itself.  A rejection inside the \<open>try\<close> block
  is passed on with \<open>Promise.reject\<close>.
\<close>

fun detectPaths ::
  "host \<Rightarrow> Uri list \<Rightarrow> Task list \<Rightarrow> string set \<Rightarrow> provider_state
     \<Rightarrow> (error + Task list \<times> string set) \<times> provider_state" where
  "detectPaths h [] allTasks visitedFiles s = (Inr (allTasks, visitedFiles), s)"
| "detectPaths h (fpath # paths) allTasks visitedFiles s =
     (if \<not> isExcluded h (path fpath) \<and> fsPath fpath \<notin> visitedFiles then
        (case readYarnfile h fpath s of
           (Inl e, s1) \<Rightarrow> (Inl e, s1)
         | (Inr tasks, s1) \<Rightarrow>
             detectPaths h paths (allTasks @ tasks) (insert (fsPath fpath) visitedFiles) s1)
      else detectPaths h paths allTasks visitedFiles s)"

fun detectFolders ::
  "host \<Rightarrow> WorkspaceFolder list \<Rightarrow> Task list \<Rightarrow> string set \<Rightarrow> provider_state
     \<Rightarrow> (error + Task list) \<times> provider_state" where
  "detectFolders h [] allTasks visitedFiles s = (Inr allTasks, s)"
| "detectFolders h (folder # folders) allTasks visitedFiles s =
     (case findFiles h folder of
        None \<Rightarrow> (Inl FindFilesRejected, s)
      | Some paths \<Rightarrow>
          (case detectPaths h paths allTasks visitedFiles s of
             (Inl e, s1) \<Rightarrow> (Inl e, s1)
           | (Inr (allTasks1, visitedFiles1), s1) \<Rightarrow>
               detectFolders h folders allTasks1 visitedFiles1 s1))"

definition detectYarnfiles :: "host \<Rightarrow> provider_state \<Rightarrow> (error + Task list) \<times> provider_state" where
  "detectYarnfiles h s =
     (let s0 = s\<lparr>discoveryPasses := Suc (discoveryPasses s)\<rparr>
      in case workspaceFolders h of
           None \<Rightarrow> (Inr [], s0)
         | Some folders \<Rightarrow> detectFolders h folders [] {} s0)"

text \<open>
  \<open>if (!cachedTasks)\<close>: only \<open>undefined\<close> is falsy, an empty array is not.
\<close>

definition provideYarnfiles :: "host \<Rightarrow> provider_state \<Rightarrow> (error + Task list) \<times> provider_state" where
  "provideYarnfiles h s =
     (case cachedTasks s of
        Some tasks \<Rightarrow> (Inr tasks, s)
      | None \<Rightarrow>
          (case detectYarnfiles h s of
             (Inl e, s1) \<Rightarrow> (Inl e, s1)
           | (Inr tasks, s1) \<Rightarrow> (Inr tasks, s1\<lparr>cachedTasks := Some tasks\<rparr>)))"

text \<open>
  \<open>invalidateTasksCacheYarn(opt)\<close>.  The array is changed in place, so the removals
  are in the state before the file is read and stay there when the read is rejected.
\<close>

definition invalidateTasksCacheYarn ::
  "host \<Rightarrow> Uri option \<Rightarrow> provider_state \<Rightarrow> (error + unit) \<times> provider_state" where
  "invalidateTasksCacheYarn h opt s =
     (case (opt, cachedTasks s) of
        (Some u, Some cached) \<Rightarrow>
          (let rmvTasks = filter (\<lambda>each. fsPath (def_uri (task_definition each)) = fsPath u) cached;
               cached1 = fold (\<lambda>each arr. removeFromArray arr each) rmvTasks cached;
               s1 = s\<lparr>cachedTasks := Some cached1\<rparr>
           in if pathExists h (fsPath u) then
                (case readYarnfile h u s1 of
                   (Inl e, s2) \<Rightarrow> (Inl e, s2)
                 | (Inr tasks, s2) \<Rightarrow>
                     (let cached2 = cached1 @ tasks
                      in if length cached2 > 0
                         then (Inr (), s2\<lparr>cachedTasks := Some cached2\<rparr>)
                         else (Inr (), s2\<lparr>cachedTasks := None\<rparr>)))
              else if length cached1 > 0 then (Inr (), s1)
              else (Inr (), s1\<lparr>cachedTasks := None\<rparr>))
      | _ \<Rightarrow> (Inr (), s\<lparr>cachedTasks := None\<rparr>))"

subsection \<open>A POSIX host and an example workspace\<close>

text \<open>
  \<open>path.dirname\<close> and \<open>path.basename\<close> as Node computes them on a POSIX host: trailing
  slashes are skipped, then the last component is cut off (\<open>dirname\<close>) or kept
  (\<open>basename\<close>).
\<close>

definition posixDirname :: "string \<Rightarrow> string" where
  "posixDirname p =
     (if p = [] then ''.''
      else
        (let hasRoot = (hd p = CHR ''/'');
             r1 = dropWhile (\<lambda>c. c = CHR ''/'') (rev (tl p));
             r2 = dropWhile (\<lambda>c. c \<noteq> CHR ''/'') r1
         in if r2 = [] then (if hasRoot then ''/'' else ''.'')
            else if hasRoot \<and> length r2 = 1 then ''//''
            else take (length r2) p))"

definition posixBasename :: "string \<Rightarrow> string" where
  "posixBasename p =
     rev (takeWhile (\<lambda>c. c \<noteq> CHR ''/'') (dropWhile (\<lambda>c. c = CHR ''/'') (rev p)))"

text \<open>
  One workspace folder \<open>/repo\<close> with the files \<open>/repo/a/package.json\<close> (A),
  \<open>/repo/b/package.json\<close> (B), a file at the root of the folder, and the texts these
  files hold at different times, each with its parsed form.
\<close>

definition repoFolder :: WorkspaceFolder where
  "repoFolder = \<lparr> folder_uri = \<lparr> path = ''/repo'', fsPath = ''/repo'' \<rparr>,
       folder_name = ''repo'', folder_index = 0 \<rparr>"

definition fileA :: Uri where
  "fileA = \<lparr> path = ''/repo/a/package.json'', fsPath = ''/repo/a/package.json'' \<rparr>"

definition fileB :: Uri where
  "fileB = \<lparr> path = ''/repo/b/package.json'', fsPath = ''/repo/b/package.json'' \<rparr>"

definition fileRoot :: Uri where
  "fileRoot = \<lparr> path = ''/repo/package.json'', fsPath = ''/repo/package.json'' \<rparr>"

definition textA :: string where
  \<open>textA = ''{"scripts": {"build": "tsc -p .", "test": "mocha"}}''\<close>

definition docA :: json where
  "docA = JObject [(''scripts'', 1, JObject
     [(''build'', 13, JLiteral (LString ''tsc -p .'') 22),
      (''test'', 34, JLiteral (LString ''mocha'') 42)])]"

definition textA2 :: string where
  \<open>textA2 = ''{"scripts": {"lint": "eslint ."}}''\<close>

definition docA2 :: json where
  "docA2 = JObject [(''scripts'', 1, JObject
     [(''lint'', 13, JLiteral (LString ''eslint .'') 21)])]"

definition textB :: string where
  \<open>textB = ''{"scripts": {"build": "make", "clean": "rm -rf out"}}''\<close>

definition docB :: json where
  "docB = JObject [(''scripts'', 1, JObject
     [(''build'', 13, JLiteral (LString ''make'') 22),
      (''clean'', 30, JLiteral (LString ''rm -rf out'') 39)])]"

text \<open>
  Malformed texts and the calls that \<open>visit\<close> of jsonc-parser makes on them.  The
  scanner recovers from an error and goes on: where the value of a property is missing
  it calls \<open>onError\<close> and resumes at the next comma or closing brace; at the end of the
  text it calls \<open>onObjectEnd\<close> for every object still open, each followed by \<open>onError\<close>
  for the missing brace.

  The truncated text of the spec's scenario: the value of \<open>build\<close> is missing, the inner
  object is closed by the brace, the outer one by the end of the text.
\<close>

definition textTruncated :: string where
  \<open>textTruncated = ''{"scripts": {"build": }''\<close>

definition eventsTruncated :: "event list" where
  "eventsTruncated =
     [OnObjectBegin, OnObjectProperty ''scripts'' 1, OnObjectBegin,
      OnObjectProperty ''build'' 13, OnError, OnObjectEnd, OnObjectEnd, OnError]"

text \<open>
  A missing value in the middle of the scripts object:
  \<open>{"scripts": {"build": , "test": "mocha"}}\<close>.  The scan resumes at the comma and meets
  the script \<open>test\<close> after the error.
\<close>

definition textRecovered :: string where
  \<open>textRecovered = ''{"scripts": {"build": , "test": "mocha"}}''\<close>

definition eventsRecovered :: "event list" where
  "eventsRecovered =
     [OnObjectBegin, OnObjectProperty ''scripts'' 1, OnObjectBegin,
      OnObjectProperty ''build'' 13, OnError,
      OnObjectProperty ''test'' 24, OnLiteralValue (LString ''mocha'') 32,
      OnObjectEnd, OnObjectEnd]"

text \<open>
  The same with a property after the scripts object:
  \<open>{"scripts": {"build": , "test": "mocha"}, "name": "x"}\<close>.
\<close>

definition textRecoveredSibling :: string where
  \<open>textRecoveredSibling = ''{"scripts": {"build": , "test": "mocha"}, "name": "x"}''\<close>

definition eventsRecoveredSibling :: "event list" where
  "eventsRecoveredSibling =
     [OnObjectBegin, OnObjectProperty ''scripts'' 1, OnObjectBegin,
      OnObjectProperty ''build'' 13, OnError,
      OnObjectProperty ''test'' 24, OnLiteralValue (LString ''mocha'') 32,
      OnObjectEnd, OnObjectProperty ''name'' 42, OnLiteralValue (LString ''x'') 50,
      OnObjectEnd]"

text \<open>A task list with labels: \<open>{"version": "2.0.0", "tasks": [{"label": "build",
  "type": "shell"}, {"label": "test"}]}\<close>.\<close>

definition docTasks :: json where
  "docTasks = JObject
     [(''version'', 1, JLiteral (LString ''2.0.0'') 12),
      (''tasks'', 21, JArray
         [JObject [(''label'', 32, JLiteral (LString ''build'') 41),
                   (''type'', 50, JLiteral (LString ''shell'') 58)],
          JObject [(''label'', 69, JLiteral (LString ''test'') 78)]])]"

text \<open>A script named \<open>scripts\<close>: \<open>{"scripts": {"build": "tsc -p .", "scripts": "ls"}}\<close>.\<close>

definition docScriptNamedScripts :: json where
  "docScriptNamedScripts = JObject [(''scripts'', 1, JObject
     [(''build'', 13, JLiteral (LString ''tsc -p .'') 22),
      (''scripts'', 34, JLiteral (LString ''ls'') 45)])]"

text \<open>An object inside the scripts block:
  \<open>{"scripts": {"pre": {"x": "y"}, "build": "make"}}\<close>.\<close>

definition docNested :: json where
  "docNested = JObject [(''scripts'', 1, JObject
     [(''pre'', 13, JObject [(''x'', 21, JLiteral (LString ''y'') 26)]),
      (''build'', 32, JLiteral (LString ''make'') 41)])]"

text \<open>A property named \<open>scripts\<close> below the top level:
  \<open>{"config": {"scripts": {"x": "y"}}}\<close>.\<close>

definition docDeep :: json where
  "docDeep = JObject [(''config'', 1, JObject
     [(''scripts'', 12, JObject [(''x'', 24, JLiteral (LString ''y'') 29)])])]"

text \<open>
  A text cut off after one complete script: the value of \<open>test\<close> is missing, and both
  objects are closed by the end of the text.
\<close>

definition textCut :: string where
  \<open>textCut = ''{"scripts": {"build": "make", "test": ''\<close>

definition eventsCut :: "event list" where
  "eventsCut =
     [OnObjectBegin, OnObjectProperty ''scripts'' 1, OnObjectBegin,
      OnObjectProperty ''build'' 13, OnLiteralValue (LString ''make'') 22,
      OnObjectProperty ''test'' 30, OnError, OnObjectEnd, OnError, OnObjectEnd, OnError]"

text \<open>The scan of \<open>docNested\<close> up to the property \<open>build\<close> of the scripts object.\<close>

definition eventsNestedPrefix :: "event list" where
  "eventsNestedPrefix =
     [OnObjectBegin, OnObjectProperty ''scripts'' 1, OnObjectBegin,
      OnObjectProperty ''pre'' 13, OnObjectBegin, OnObjectProperty ''x'' 21,
      OnLiteralValue (LString ''y'') 26, OnObjectEnd]"

definition exampleVisit :: "string \<Rightarrow> event list" where
  "exampleVisit text =
     (if text = textA then visitValue docA
      else if text = textA2 then visitValue docA2
      else if text = textB then visitValue docB
      else if text = textTruncated then eventsTruncated
      else if text = textCut then eventsCut
      else if text = textRecovered then eventsRecovered
      else if text = textRecoveredSibling then eventsRecoveredSibling
      else [])"

text \<open>
  The host for a given disk (the text of each readable file, the paths that exist)
  and a given answer of \<open>findFiles\<close>.
\<close>

definition exampleHost :: "(string \<Rightarrow> string option) \<Rightarrow> (string \<Rightarrow> bool) \<Rightarrow> Uri list \<Rightarrow> host" where
  "exampleHost files exists found =
     \<lparr> readFile = files, pathExists = exists,
       getWorkspaceFolder = (\<lambda>u. if take 6 (path u) = ''/repo/'' then Some repoFolder else None),
       workspaceFolders = Some [repoFolder],
       findFiles = (\<lambda>folder. Some found),
       isExcluded = (\<lambda>p. False),
       visit = exampleVisit, dirname = posixDirname, basename = posixBasename \<rparr>"

definition diskAB :: "string \<Rightarrow> string option" where
  "diskAB = [fsPath fileA \<mapsto> textA, fsPath fileB \<mapsto> textB]"

definition diskA2B :: "string \<Rightarrow> string option" where
  "diskA2B = [fsPath fileA \<mapsto> textA2, fsPath fileB \<mapsto> textB]"

definition diskB :: "string \<Rightarrow> string option" where
  "diskB = [fsPath fileB \<mapsto> textB]"

definition diskA :: "string \<Rightarrow> string option" where
  "diskA = [fsPath fileA \<mapsto> textA]"

definition hostAB :: host where
  "hostAB = exampleHost diskAB (\<lambda>p. diskAB p \<noteq> None) [fileA, fileB]"

definition hostA2B :: host where
  "hostA2B = exampleHost diskA2B (\<lambda>p. diskA2B p \<noteq> None) [fileA, fileB]"

definition hostB :: host where
  "hostB = exampleHost diskB (\<lambda>p. diskB p \<noteq> None) [fileB]"

definition hostA :: host where
  "hostA = exampleHost diskA (\<lambda>p. diskA p \<noteq> None) [fileA]"

text \<open>File A is still there but can no longer be read.\<close>

definition hostAUnreadable :: host where
  "hostAUnreadable = exampleHost Map.empty (\<lambda>p. p = fsPath fileA) [fileA]"

definition diskTruncated :: "string \<Rightarrow> string option" where
  "diskTruncated = [fsPath fileA \<mapsto> textTruncated, fsPath fileB \<mapsto> textCut]"

definition hostTruncated :: host where
  "hostTruncated = exampleHost diskTruncated (\<lambda>p. diskTruncated p \<noteq> None) [fileA, fileB]"

definition diskRecovered :: "string \<Rightarrow> string option" where
  "diskRecovered = [fsPath fileA \<mapsto> textRecovered, fsPath fileB \<mapsto> textRecoveredSibling]"

definition hostRecovered :: host where
  "hostRecovered = exampleHost diskRecovered (\<lambda>p. diskRecovered p \<noteq> None) [fileA, fileB]"

text \<open>The file system root as a workspace folder, and a file one directory below it.\<close>

definition rootFolder :: WorkspaceFolder where
  "rootFolder = \<lparr> folder_uri = \<lparr> path = ''/'', fsPath = ''/'' \<rparr>,
       folder_name = ''root'', folder_index = 0 \<rparr>"

definition fileBelowRoot :: Uri where
  "fileBelowRoot = \<lparr> path = ''/a/package.json'', fsPath = ''/a/package.json'' \<rparr>"

definition yarnTask :: "string \<Rightarrow> string \<Rightarrow> Uri \<Rightarrow> Task" where
  "yarnTask target relativePath u =
     \<lparr> task_definition = \<lparr> def_type = ''yarn'', def_script = target, def_path = relativePath,
                            def_fileName = ''package.json'', def_uri = u \<rparr>,
       task_scope = repoFolder, task_name = target, task_source = ''yarn'',
       task_execution = \<lparr> command = ''npx'', args = [''yarn'', target],
                           cwd = ''/repo/'' @ butlast relativePath \<rparr>,
       task_group = Some Build \<rparr>"

definition tasksA :: "Task list" where
  "tasksA = [yarnTask ''build'' ''a/'' fileA, yarnTask ''test'' ''a/'' fileA]"

definition tasksA2 :: "Task list" where
  "tasksA2 = [yarnTask ''lint'' ''a/'' fileA]"

definition tasksB :: "Task list" where
  "tasksB = [yarnTask ''build'' ''b/'' fileB, yarnTask ''clean'' ''b/'' fileB]"

definition freshState :: provider_state where
  "freshState = \<lparr> cachedTasks = None, readLog = [], discoveryPasses = 0 \<rparr>"

definition stateAB :: provider_state where
  "stateAB = \<lparr> cachedTasks = Some (tasksA @ tasksB),
       readLog = [fsPath fileA, fsPath fileB], discoveryPasses = 1 \<rparr>"

definition stateA :: provider_state where
  "stateA = \<lparr> cachedTasks = Some tasksA, readLog = [fsPath fileA], discoveryPasses = 1 \<rparr>"

section \<open>Properties\<close>

subsection \<open>Evaluating the examples\<close>

lemmas example_defs = exampleHost_def exampleVisit_def hostAB_def hostA2B_def hostB_def hostA_def
  hostAUnreadable_def hostTruncated_def diskAB_def diskA2B_def diskB_def diskA_def
  diskTruncated_def textCut_def eventsCut_def diskRecovered_def hostRecovered_def
  textRecovered_def textRecoveredSibling_def eventsRecovered_def eventsRecoveredSibling_def
  rootFolder_def fileBelowRoot_def
  fileA_def fileB_def fileRoot_def repoFolder_def textA_def textA2_def textB_def textTruncated_def
  docA_def docA2_def docB_def eventsTruncated_def tasksA_def tasksA2_def tasksB_def yarnTask_def
  freshState_def stateAB_def stateA_def

lemmas visitor_defs = visitAll_def initial_def onObjectProperty_def onLiteralValue_def onObjectEnd_def
  truthy_def setProperty_def propertyKey_def

lemmas task_defs = createYarnTask_def getRelativePath_def getCommand_def substring_def
  substringFrom_def clampIndex_def lastIndexOf_def posixDirname_def posixBasename_def
  objectKeys_def isArrayIndex_def isDigit_def toNumber_def

lemmas provider_defs = provideYarnfiles_def detectYarnfiles_def readYarnfile_def findTargets_def
  invalidateTasksCacheYarn_def removeFromArray_def scanStep_def

subsection \<open>What the provider functions leave unchanged\<close>

lemma findTargets_frame:
  "cachedTasks (snd (findTargets h p s)) = cachedTasks s"
  "discoveryPasses (snd (findTargets h p s)) = discoveryPasses s"
  "readLog (snd (findTargets h p s)) = readLog s @ [p]"
  by (simp_all add: findTargets_def Let_def split: option.splits)

lemma readYarnfile_frame:
  "cachedTasks (snd (readYarnfile h u s)) = cachedTasks s"
  "discoveryPasses (snd (readYarnfile h u s)) = discoveryPasses s"
  "readLog (snd (readYarnfile h u s)) =
     readLog s @ (if getWorkspaceFolder h u = None then [] else [fsPath u])"
  using findTargets_frame [of h "fsPath u" s]
  by (auto simp: readYarnfile_def split: option.splits prod.splits sum.splits)

lemma detectPaths_frame:
  "cachedTasks (snd (detectPaths h ps acc vis s)) = cachedTasks s \<and>
   discoveryPasses (snd (detectPaths h ps acc vis s)) = discoveryPasses s"
proof (induction ps arbitrary: acc vis s)
  case Nil
  show ?case by simp
next
  case (Cons p ps)
  show ?case
  proof (cases "\<not> isExcluded h (path p) \<and> fsPath p \<notin> vis")
    case False
    then show ?thesis using Cons.IH [of acc vis s] by auto
  next
    case True
    obtain r s1 where r: "readYarnfile h p s = (r, s1)" by (cases "readYarnfile h p s")
    have fr: "cachedTasks s1 = cachedTasks s" "discoveryPasses s1 = discoveryPasses s"
      using readYarnfile_frame(1,2) [of h p s] r by simp_all
    show ?thesis
    proof (cases r)
      case (Inl e)
      then show ?thesis using True r fr by simp
    next
      case (Inr tasks)
      then show ?thesis
        using True r fr Cons.IH [of "acc @ tasks" "insert (fsPath p) vis" s1] by simp
    qed
  qed
qed

lemma detectFolders_frame:
  "cachedTasks (snd (detectFolders h fs acc vis s)) = cachedTasks s \<and>
   discoveryPasses (snd (detectFolders h fs acc vis s)) = discoveryPasses s"
proof (induction fs arbitrary: acc vis s)
  case Nil
  show ?case by simp
next
  case (Cons f fs)
  show ?case
  proof (cases "findFiles h f")
    case None
    then show ?thesis by simp
  next
    case (Some ps)
    obtain r s1 where r: "detectPaths h ps acc vis s = (r, s1)"
      by (cases "detectPaths h ps acc vis s")
    have fr: "cachedTasks s1 = cachedTasks s" "discoveryPasses s1 = discoveryPasses s"
      using detectPaths_frame [of h ps acc vis s] r by simp_all
    show ?thesis
    proof (cases r)
      case (Inl e)
      then show ?thesis using Some r fr by simp
    next
      case (Inr av)
      obtain a v where av: "av = (a, v)" by (cases av)
      show ?thesis using Some r fr Inr av Cons.IH [of a v s1] by simp
    qed
  qed
qed

lemma detectYarnfiles_frame:
  "cachedTasks (snd (detectYarnfiles h s)) = cachedTasks s"
  "discoveryPasses (snd (detectYarnfiles h s)) = Suc (discoveryPasses s)"
  using detectFolders_frame [of h _ "[]" "{}" "s\<lparr>discoveryPasses := Suc (discoveryPasses s)\<rparr>"]
  by (auto simp: detectYarnfiles_def Let_def split: option.splits)

lemma provideYarnfiles_uninitialized:
  assumes "cachedTasks s = None"
  shows "discoveryPasses (snd (provideYarnfiles h s)) = Suc (discoveryPasses s)"
proof -
  obtain r s1 where r: "detectYarnfiles h s = (r, s1)" by (cases "detectYarnfiles h s")
  have "discoveryPasses s1 = Suc (discoveryPasses s)"
    using detectYarnfiles_frame(2) [of h s] r by simp
  then show ?thesis using assms r by (cases r) (simp_all add: provideYarnfiles_def)
qed

lemma provideYarnfiles_cached:
  assumes "provideYarnfiles h s = (Inr tasks, s1)"
  shows "cachedTasks s1 = Some tasks"
proof (cases "cachedTasks s")
  case (Some ts)
  then show ?thesis using assms by (auto simp: provideYarnfiles_def)
next
  case None
  then show ?thesis using assms
    by (auto simp: provideYarnfiles_def split: prod.splits sum.splits)
qed

subsection \<open>Removing the tasks of one file\<close>

lemma scan_absent:
  "item \<notin> set arr \<Longrightarrow> snd (foldl (scanStep item) (i, j) arr) = j"
  by (induction arr arbitrary: i j) (simp_all add: scanStep_def Let_def)

lemma scan_present:
  "item \<notin> set zs \<Longrightarrow>
   snd (foldl (scanStep item) (i, j) (ys @ item # zs)) = i + int (length ys) + 1"
proof (induction ys arbitrary: i j)
  case Nil
  then show ?case
    using scan_absent [of item zs "i + 1" "i + 1"] by (simp add: scanStep_def Let_def)
next
  case (Cons y ys)
  show ?case using Cons.IH [OF Cons.prems, of "i + 1"] by (simp add: scanStep_def Let_def)
qed

lemma removeFromArray_absent:
  "item \<notin> set arr \<Longrightarrow> removeFromArray arr item = arr"
  by (simp add: removeFromArray_def scan_absent)

lemma removeFromArray_last:
  assumes "item \<notin> set zs"
  shows "removeFromArray (ys @ item # zs) item = ys @ zs"
proof -
  have "snd (foldl (scanStep item) (- 1, - 1) (ys @ item # zs)) = int (length ys)"
    using scan_present [OF assms, of "- 1" "- 1" ys] by simp
  then show ?thesis
    unfolding removeFromArray_def Let_def by simp
qed

lemma removeFromArray_mset:
  assumes "item \<in> set arr"
  shows "mset (removeFromArray arr item) = mset arr - {#item#}"
proof -
  obtain ys zs where s: "arr = ys @ item # zs" "item \<notin> set zs"
    using split_list_last [OF assms] by blast
  show ?thesis using removeFromArray_last [OF s(2), of ys] s(1) by simp
qed

lemma removeFromArray_filter:
  assumes "\<not> Q item"
  shows "filter Q (removeFromArray arr item) = filter Q arr"
proof (cases "item \<in> set arr")
  case False
  then show ?thesis by (simp add: removeFromArray_absent)
next
  case True
  obtain ys zs where s: "arr = ys @ item # zs" "item \<notin> set zs"
    using split_list_last [OF True] by blast
  show ?thesis using removeFromArray_last [OF s(2), of ys] s(1) assms by simp
qed

lemma fold_removeFromArray:
  "mset rmv = mset (filter P arr) \<Longrightarrow>
   fold (\<lambda>each a. removeFromArray a each) rmv arr = filter (\<lambda>x. \<not> P x) arr"
proof (induction rmv arbitrary: arr)
  case Nil
  then have "filter P arr = []" by simp
  then have "\<forall>x\<in>set arr. \<not> P x" by (simp add: filter_empty_conv)
  then show ?case by simp
next
  case (Cons r rmv)
  have eq: "mset (filter P arr) = add_mset r (mset rmv)" using Cons.prems by simp
  then have "r \<in># mset (filter P arr)" by simp
  then have r: "r \<in> set arr" "P r" by auto
  have "mset (filter P (removeFromArray arr r)) = filter_mset P (mset arr - {#r#})"
    using removeFromArray_mset [OF r(1)] by simp
  also have "\<dots> = filter_mset P (mset arr) - {#r#}"
    using r(2) by (simp add: filter_diff_mset)
  also have "\<dots> = mset rmv" using eq by simp
  finally have "mset rmv = mset (filter P (removeFromArray arr r))" by simp
  from Cons.IH [OF this] show ?case
    using removeFromArray_filter [of "\<lambda>x. \<not> P x" r arr] r(2) by simp
qed

subsection \<open>The cache: invalidation\<close>

lemma readYarnfile_cachedTasks_update:
  "readYarnfile h u (s\<lparr>cachedTasks := c\<rparr>) =
     (fst (readYarnfile h u s), (snd (readYarnfile h u s))\<lparr>cachedTasks := c\<rparr>)"
  by (simp add: readYarnfile_def findTargets_def Let_def split: option.splits)

lemma invalidate_removal:
  "fold (\<lambda>each arr. removeFromArray arr each)
        (filter (\<lambda>each. fsPath (def_uri (task_definition each)) = p) cached) cached =
   filter (\<lambda>t. fsPath (def_uri (task_definition t)) \<noteq> p) cached"
  by (rule fold_removeFromArray) simp

lemma invalidate_absent_file:
  assumes "cachedTasks s = Some cached" "\<not> pathExists h (fsPath a)"
  shows "invalidateTasksCacheYarn h (Some a) s =
     (let kept = filter (\<lambda>t. fsPath (def_uri (task_definition t)) \<noteq> fsPath a) cached
      in (Inr (), s\<lparr>cachedTasks := if kept = [] then None else Some kept\<rparr>))"
  using assms by (simp add: invalidateTasksCacheYarn_def invalidate_removal Let_def)

lemma invalidate_present_file:
  assumes "cachedTasks s = Some cached" "pathExists h (fsPath a)"
    and "readYarnfile h a s = (Inr fresh, s1)"
  shows "invalidateTasksCacheYarn h (Some a) s =
     (let kept = filter (\<lambda>t. fsPath (def_uri (task_definition t)) \<noteq> fsPath a) cached
      in (Inr (), s1\<lparr>cachedTasks := if kept @ fresh = [] then None else Some (kept @ fresh)\<rparr>))"
  using assms
  by (simp add: invalidateTasksCacheYarn_def invalidate_removal readYarnfile_cachedTasks_update Let_def)

lemma invalidate_rejected:
  assumes "cachedTasks s = Some cached" "pathExists h (fsPath a)"
    and "readYarnfile h a s = (Inl e, s1)"
  shows "invalidateTasksCacheYarn h (Some a) s =
     (Inl e, s1\<lparr>cachedTasks :=
        Some (filter (\<lambda>t. fsPath (def_uri (task_definition t)) \<noteq> fsPath a) cached)\<rparr>)"
  using assms
  by (simp add: invalidateTasksCacheYarn_def invalidate_removal readYarnfile_cachedTasks_update Let_def)

lemma invalidate_returns_nonempty:
  assumes "invalidateTasksCacheYarn h opt s = (Inr (), s1)"
  shows "cachedTasks s1 \<noteq> Some []"
  using assms
  by (auto simp: invalidateTasksCacheYarn_def Let_def
      split: option.splits prod.splits sum.splits if_splits)

lemma invalidate_all:
  "invalidateTasksCacheYarn h None s = (Inr (), s\<lparr>cachedTasks := None\<rparr>)"
  by (simp add: invalidateTasksCacheYarn_def)

lemma example_discovery: "provideYarnfiles hostAB freshState = (Inr (tasksA @ tasksB), stateAB)"
  by (simp add: provider_defs example_defs visitor_defs task_defs Let_def)

text \<open>
  Claim C10.  Invalidating with a changed file while the cache is uninitialized
  (\<open>cachedTasks\<close> is \<open>undefined\<close>) reads no file and populates nothing: the call returns
  with the state exactly as it was, the read trace included, so the cache is still
  uninitialized and the next \<open>provideYarnfiles\<close> runs a discovery pass.
\<close>

theorem invalidate_uninitialized:
  assumes "cachedTasks s = None"
  shows "invalidateTasksCacheYarn h (Some u) s = (Inr (), s) \<and>
         discoveryPasses (snd (provideYarnfiles h' (snd (invalidateTasksCacheYarn h (Some u) s))))
           = Suc (discoveryPasses s)"
proof -
  have "s\<lparr>cachedTasks := None\<rparr> = s" using assms by simp
  then have 1: "invalidateTasksCacheYarn h (Some u) s = (Inr (), s)"
    using assms by (simp add: invalidateTasksCacheYarn_def)
  show ?thesis using 1 provideYarnfiles_uninitialized [OF assms, of h'] by simp
qed

theorem invalidate_uninitialized_witness:
  "cachedTasks freshState = None \<and>
   invalidateTasksCacheYarn hostAB (Some fileA) freshState = (Inr (), freshState) \<and>
   discoveryPasses (snd (provideYarnfiles hostAB
       (snd (invalidateTasksCacheYarn hostAB (Some fileA) freshState)))) = Suc 0"
proof -
  have u: "cachedTasks freshState = None" by (simp add: freshState_def)
  have "discoveryPasses freshState = 0" by (simp add: freshState_def)
  then show ?thesis using u invalidate_uninitialized [OF u, of hostAB fileA hostAB] by auto
qed

subsection \<open>The cache: lazy population\<close>

text \<open>
  Claim C7.  \<open>provideYarnfiles\<close> runs exactly one discovery pass when the cache is
  uninitialized and none when it is initialized; once a call has returned a task
  sequence, every later call without an invalidation in between returns the same
  sequence and leaves the state as it is (no discovery pass, no file read), whatever
  the workspace and the disk have become.
\<close>

theorem provideYarnfiles_discovers_once:
  "(cachedTasks s = None \<longrightarrow>
      discoveryPasses (snd (provideYarnfiles h s)) = Suc (discoveryPasses s)) \<and>
   (cachedTasks s \<noteq> None \<longrightarrow> snd (provideYarnfiles h s) = s) \<and>
   (provideYarnfiles h s = (Inr tasks, s1) \<longrightarrow> provideYarnfiles h' s1 = (Inr tasks, s1))"
proof (intro conjI impI)
  assume "cachedTasks s = None"
  then show "discoveryPasses (snd (provideYarnfiles h s)) = Suc (discoveryPasses s)"
    by (rule provideYarnfiles_uninitialized)
next
  assume "cachedTasks s \<noteq> None"
  then show "snd (provideYarnfiles h s) = s" by (auto simp: provideYarnfiles_def)
next
  assume "provideYarnfiles h s = (Inr tasks, s1)"
  then have "cachedTasks s1 = Some tasks" by (rule provideYarnfiles_cached)
  then show "provideYarnfiles h' s1 = (Inr tasks, s1)" by (simp add: provideYarnfiles_def)
qed

theorem provideYarnfiles_discovers_once_witness:
  "cachedTasks freshState = None \<and>
   provideYarnfiles hostAB freshState = (Inr (tasksA @ tasksB), stateAB) \<and>
   discoveryPasses stateAB = Suc (discoveryPasses freshState) \<and>
   cachedTasks stateAB \<noteq> None \<and>
   provideYarnfiles hostB stateAB = (Inr (tasksA @ tasksB), stateAB)"
  using provideYarnfiles_discovers_once [of freshState hostAB "tasksA @ tasksB" stateAB hostB]
    example_discovery
  by (simp add: freshState_def stateAB_def)

subsection \<open>The cache: refreshing one file\<close>

lemma example_reread:
  "readYarnfile hostA2B fileA stateAB =
     (Inr tasksA2, stateAB\<lparr>readLog := [fsPath fileA, fsPath fileB, fsPath fileA]\<rparr>)"
  by (simp add: provider_defs example_defs visitor_defs task_defs Let_def)

lemma example_discovery_A: "provideYarnfiles hostA freshState = (Inr tasksA, stateA)"
  by (simp add: provider_defs example_defs visitor_defs task_defs Let_def)

text \<open>
  Claim C4.  With an initialized cache, invalidating with the path of file A keeps
  exactly the cached tasks whose file is not A, in their order.  When A no longer
  exists nothing is read and nothing is inserted.  When A exists, A is read and
  extracted with \<open>readYarnfile\<close> and its fresh tasks are appended; the read trace grows
  by A's path only (or not at all when A belongs to no workspace folder), so no other
  file is read.  A cache that ends up empty becomes uninitialized.  When the read of A
  is rejected there are no fresh tasks: the call is rejected with the same error, the
  tasks of the other files are kept and again only A has been read.
\<close>

theorem invalidate_single_file:
  assumes "cachedTasks s = Some cached"
  shows
    "(let kept = filter (\<lambda>t. fsPath (def_uri (task_definition t)) \<noteq> fsPath a) cached in
       (\<not> pathExists h (fsPath a) \<longrightarrow>
          invalidateTasksCacheYarn h (Some a) s =
            (Inr (), s\<lparr>cachedTasks := if kept = [] then None else Some kept\<rparr>)) \<and>
       (pathExists h (fsPath a) \<and> readYarnfile h a s = (Inr fresh, s1) \<longrightarrow>
          invalidateTasksCacheYarn h (Some a) s =
            (Inr (), s1\<lparr>cachedTasks := if kept @ fresh = [] then None else Some (kept @ fresh)\<rparr>) \<and>
          readLog s1 = readLog s @ (if getWorkspaceFolder h a = None then [] else [fsPath a])) \<and>
       (pathExists h (fsPath a) \<and> readYarnfile h a s = (Inl e, s2) \<longrightarrow>
          invalidateTasksCacheYarn h (Some a) s = (Inl e, s2\<lparr>cachedTasks := Some kept\<rparr>) \<and>
          readLog s2 = readLog s @ [fsPath a]))"
proof -
  have "readYarnfile h a s = (Inr fresh, s1) \<Longrightarrow>
        readLog s1 = readLog s @ (if getWorkspaceFolder h a = None then [] else [fsPath a])"
    using readYarnfile_frame(3) [of h a s] by simp
  moreover have "readYarnfile h a s = (Inl e, s2) \<Longrightarrow> readLog s2 = readLog s @ [fsPath a]"
    using readYarnfile_frame(3) [of h a s]
    by (auto simp: readYarnfile_def split: option.splits)
  ultimately show ?thesis
    using invalidate_absent_file [OF assms, of h a]
      invalidate_present_file [OF assms, of h a fresh s1]
      invalidate_rejected [OF assms, of h a e s2]
    by (simp add: Let_def)
qed

theorem invalidate_single_file_witness:
  "cachedTasks stateAB = Some (tasksA @ tasksB) \<and>
   pathExists hostA2B (fsPath fileA) \<and>
   readYarnfile hostA2B fileA stateAB =
     (Inr tasksA2, stateAB\<lparr>readLog := [fsPath fileA, fsPath fileB, fsPath fileA]\<rparr>) \<and>
   invalidateTasksCacheYarn hostA2B (Some fileA) stateAB =
     (Inr (), \<lparr> cachedTasks = Some (tasksB @ tasksA2),
                 readLog = [fsPath fileA, fsPath fileB, fsPath fileA], discoveryPasses = 1 \<rparr>) \<and>
   \<not> pathExists hostB (fsPath fileA) \<and>
   invalidateTasksCacheYarn hostB (Some fileA) stateAB =
     (Inr (), \<lparr> cachedTasks = Some tasksB,
                 readLog = [fsPath fileA, fsPath fileB], discoveryPasses = 1 \<rparr>) \<and>
   pathExists hostAUnreadable (fsPath fileA) \<and>
   invalidateTasksCacheYarn hostAUnreadable (Some fileA) stateAB =
     (Inl (ReadFileRejected (fsPath fileA)),
      \<lparr> cachedTasks = Some tasksB,
        readLog = [fsPath fileA, fsPath fileB, fsPath fileA], discoveryPasses = 1 \<rparr>)"
proof -
  have c: "cachedTasks stateAB = Some (tasksA @ tasksB)" by (simp add: stateAB_def)
  have k: "filter (\<lambda>t. fsPath (def_uri (task_definition t)) \<noteq> fsPath fileA) (tasksA @ tasksB) = tasksB"
    by (simp add: example_defs)
  have e: "pathExists hostA2B (fsPath fileA)" "\<not> pathExists hostB (fsPath fileA)"
    "pathExists hostAUnreadable (fsPath fileA)"
    by (simp_all add: example_defs)
  have n: "tasksB \<noteq> []" by (simp add: tasksB_def)
  have r: "readYarnfile hostAUnreadable fileA stateAB =
      (Inl (ReadFileRejected (fsPath fileA)),
       stateAB\<lparr>readLog := [fsPath fileA, fsPath fileB, fsPath fileA]\<rparr>)"
    by (simp add: readYarnfile_def findTargets_def example_defs Let_def)
  have 1: "invalidateTasksCacheYarn hostA2B (Some fileA) stateAB =
      (Inr (), stateAB\<lparr>readLog := [fsPath fileA, fsPath fileB, fsPath fileA],
                        cachedTasks := Some (tasksB @ tasksA2)\<rparr>)"
    using invalidate_single_file [OF c, of fileA hostA2B tasksA2
        "stateAB\<lparr>readLog := [fsPath fileA, fsPath fileB, fsPath fileA]\<rparr>", unfolded Let_def k]
      example_reread e(1) n by simp
  have 2: "invalidateTasksCacheYarn hostB (Some fileA) stateAB =
      (Inr (), stateAB\<lparr>cachedTasks := Some tasksB\<rparr>)"
    using invalidate_single_file [OF c, of fileA hostB, unfolded Let_def k] e(2) n by simp
  have 3: "invalidateTasksCacheYarn hostAUnreadable (Some fileA) stateAB =
      (Inl (ReadFileRejected (fsPath fileA)),
       stateAB\<lparr>readLog := [fsPath fileA, fsPath fileB, fsPath fileA],
               cachedTasks := Some tasksB\<rparr>)"
    using invalidate_single_file [OF c, of fileA hostAUnreadable _ _ "ReadFileRejected (fsPath fileA)"
        "stateAB\<lparr>readLog := [fsPath fileA, fsPath fileB, fsPath fileA]\<rparr>", unfolded Let_def k]
      r e(3) by simp
  show ?thesis using 1 2 3 c e example_reread by (simp add: stateAB_def)
qed

text \<open>
  Claim C5.  An invalidation that leaves the cached sequence empty is meant to make
  the cache uninitialized, so that the next \<open>provideYarnfiles\<close> discovers again.  That
  holds for every call that returns (\<open>invalidate_returns_nonempty\<close>,
  \<open>invalidate_all\<close>), but not when the read of the changed file is rejected: the tasks
  of the file are already removed from the array, the rejection leaves the function
  before the check of the length, and the cache stays initialized and empty.  Here the
  cache holds the tasks of file A only, A still exists but cannot be read; afterwards
  \<open>provideYarnfiles\<close> returns the empty list without a discovery pass, even on a host
  where A is readable again.
\<close>

theorem invalidate_rejected_read_keeps_empty_cache:
  "provideYarnfiles hostA freshState = (Inr tasksA, stateA) \<and>
   invalidateTasksCacheYarn hostAUnreadable (Some fileA) stateA =
     (Inl (ReadFileRejected (fsPath fileA)),
      \<lparr> cachedTasks = Some [], readLog = [fsPath fileA, fsPath fileA], discoveryPasses = 1 \<rparr>) \<and>
   provideYarnfiles hostA
      \<lparr> cachedTasks = Some [], readLog = [fsPath fileA, fsPath fileA], discoveryPasses = 1 \<rparr> =
     (Inr [],
      \<lparr> cachedTasks = Some [], readLog = [fsPath fileA, fsPath fileA], discoveryPasses = 1 \<rparr>)"
proof (intro conjI)
  show "provideYarnfiles hostA freshState = (Inr tasksA, stateA)"
    by (rule example_discovery_A)
  have r: "readYarnfile hostAUnreadable fileA stateA =
      (Inl (ReadFileRejected (fsPath fileA)), stateA\<lparr>readLog := [fsPath fileA, fsPath fileA]\<rparr>)"
    by (simp add: readYarnfile_def findTargets_def example_defs Let_def)
  have c: "cachedTasks stateA = Some tasksA" by (simp add: stateA_def)
  have e: "pathExists hostAUnreadable (fsPath fileA)" by (simp add: example_defs)
  have k: "filter (\<lambda>t. fsPath (def_uri (task_definition t)) \<noteq> fsPath fileA) tasksA = []"
    by (simp add: example_defs)
  show "invalidateTasksCacheYarn hostAUnreadable (Some fileA) stateA =
     (Inl (ReadFileRejected (fsPath fileA)),
      \<lparr> cachedTasks = Some [], readLog = [fsPath fileA, fsPath fileA], discoveryPasses = 1 \<rparr>)"
    using invalidate_rejected [OF c e r] k by (simp add: stateA_def)
  show "provideYarnfiles hostA
      \<lparr> cachedTasks = Some [], readLog = [fsPath fileA, fsPath fileA], discoveryPasses = 1 \<rparr> =
     (Inr [],
      \<lparr> cachedTasks = Some [], readLog = [fsPath fileA, fsPath fileA], discoveryPasses = 1 \<rparr>)"
    by (simp add: provideYarnfiles_def)
qed

subsection \<open>Materializing tasks\<close>

lemma example_read_B:
  "readYarnfile hostAB fileB freshState = (Inr tasksB, freshState\<lparr>readLog := [fsPath fileB]\<rparr>)"
  by (simp add: provider_defs example_defs visitor_defs task_defs Let_def)

lemma lastIndexOf_last:
  assumes "c \<notin> set fname"
  shows "lastIndexOf (xs @ c # fname) c = int (length xs)"
proof -
  have "c \<notin> set ys \<Longrightarrow> dropWhile (\<lambda>x. x \<noteq> c) (ys @ c # zs) = c # zs" for ys zs
    by (induction ys) auto
  from this [of "rev fname" "rev xs"] show ?thesis using assms by (simp add: lastIndexOf_def)
qed

lemma nat_int_succ: "nat (int n + 1) = Suc n"
  by simp

lemma getRelativePath_inside:
  assumes "path u = path (folder_uri folder) @ ''/'' @ rel @ fname"
    and "CHR ''/'' \<notin> set fname" and "rel = [] \<or> last rel = CHR ''/''"
  shows "getRelativePath folder u = rel"
proof -
  let ?root = "path (folder_uri folder)"
  obtain dir where dir: "?root @ ''/'' @ rel = dir @ ''/''"
  proof (cases "rel = []")
    case True
    then show ?thesis using that [of ?root] by simp
  next
    case False
    then have "rel = butlast rel @ ''/''" using assms(3) by (metis append_butlast_last_id)
    then have "?root @ ''/'' @ rel = (?root @ ''/'' @ butlast rel) @ ''/''" by simp
    then show ?thesis using that by blast
  qed
  have p: "path u = dir @ CHR ''/'' # fname" using assms(1) dir by simp
  have "lastIndexOf (path u) CHR ''/'' = int (length dir)"
    unfolding p by (rule lastIndexOf_last [OF assms(2)])
  then have "substring (path u) 0 (lastIndexOf (path u) CHR ''/'' + 1) = dir @ ''/''"
    unfolding p by (simp add: substring_def clampIndex_def Let_def nat_int_succ)
  then have "substring (path u) 0 (lastIndexOf (path u) CHR ''/'' + 1) = ?root @ ''/'' @ rel"
    using dir by simp
  then show ?thesis
    by (simp add: getRelativePath_def substringFrom_def substring_def clampIndex_def Let_def
        nat_int_succ)
qed

text \<open>
  Claim C9, as stated: the group of a task depends on its target name, names with
  \<open>clean\<close>, \<open>pre\<close> or \<open>post\<close> going to the Clean group, so that the targets \<open>build\<close> and
  \<open>clean\<close> of one file get different groups.  File B of the example has exactly these
  two targets, and \<open>readYarnfile\<close> gives both tasks the same group.
\<close>

theorem build_and_clean_same_group_counterexample:
  "readYarnfile hostAB fileB freshState =
     (Inr [yarnTask ''build'' ''b/'' fileB, yarnTask ''clean'' ''b/'' fileB],
      freshState\<lparr>readLog := [fsPath fileB]\<rparr>) \<and>
   task_name (yarnTask ''build'' ''b/'' fileB) = ''build'' \<and>
   task_name (yarnTask ''clean'' ''b/'' fileB) = ''clean'' \<and>
   task_group (yarnTask ''build'' ''b/'' fileB) = task_group (yarnTask ''clean'' ''b/'' fileB)"
  using example_read_B by (simp add: tasksB_def yarnTask_def)

text \<open>
  Claim C9, amended: every task that \<open>readYarnfile\<close> returns has the group Build,
  whatever its target name.
\<close>

theorem readYarnfile_group_is_build:
  assumes "readYarnfile h u s = (Inr tasks, s1)"
  shows "\<forall>t\<in>set tasks. task_group t = Some Build"
  using assms
  by (auto simp: readYarnfile_def split: option.splits prod.splits sum.splits)

theorem readYarnfile_group_is_build_witness:
  "readYarnfile hostAB fileB freshState = (Inr tasksB, freshState\<lparr>readLog := [fsPath fileB]\<rparr>) \<and>
   map task_name tasksB = [''build'', ''clean''] \<and>
   map task_group tasksB = [Some Build, Some Build]"
proof -
  have "\<forall>t\<in>set tasksB. task_group t = Some Build"
    by (rule readYarnfile_group_is_build [OF example_read_B])
  then have "map task_group tasksB = [Some Build, Some Build]" by (simp add: tasksB_def)
  moreover have "map task_name tasksB = [''build'', ''clean'']"
    by (simp add: tasksB_def yarnTask_def)
  ultimately show ?thesis using example_read_B by simp
qed

text \<open>
  Claim C8, as stated: the command line of a task is the runner binary followed by the
  target name, and the recorded relative path is the file's directory relative to the
  folder root.  For the target \<open>build\<close> of \<open>/repo/package.json\<close> the shell execution
  starts \<open>npx\<close>, with the runner and the target as its arguments.  For
  \<open>/repo/a/package.json\<close> in the folder \<open>/repo\<close> the recorded path is \<open>a/\<close>, the
  directory with a closing slash.  For \<open>/a/package.json\<close> in the folder \<open>/\<close>, whose
  root path ends in a slash, the recorded path is \<open>/\<close>.
\<close>

theorem createYarnTask_command_line_counterexample:
  "commandLine (task_execution (createYarnTask hostAB ''build'' ''build'' repoFolder fileRoot)) =
     [''npx'', ''yarn'', ''build''] \<and>
   commandLine (task_execution (createYarnTask hostAB ''build'' ''build'' repoFolder fileRoot)) \<noteq>
     [''yarn'', ''build''] \<and>
   def_path (task_definition (createYarnTask hostAB ''build'' ''build'' repoFolder fileA)) = ''a/'' \<and>
   def_path (task_definition (createYarnTask hostAB ''build'' ''build'' rootFolder fileBelowRoot)) = ''/''"
  by (simp add: commandLine_def example_defs task_defs Let_def)

text \<open>
  Claim C8, amended: for every target name and config file, on every host, the working
  directory of the task is \<open>path.dirname\<close> of the file's path, and the command line is
  the fixed launcher \<open>npx\<close> followed by the hard-coded runner \<open>yarn\<close> and the target
  name, none of them taken from the host or from the content of any file.  For a config
  file whose path is the root path of the workspace folder, a slash, a relative
  directory that is empty or ends in a slash, and a file name without a slash, the
  recorded relative path is that relative directory with its closing slash, the empty
  string for a file at the folder root.
\<close>

theorem createYarnTask_fields:
  "cwd (task_execution (createYarnTask h target cmd folder u)) = dirname h (fsPath u) \<and>
   commandLine (task_execution (createYarnTask h target cmd folder u)) = [''npx'', ''yarn'', target] \<and>
   (path u = path (folder_uri folder) @ ''/'' @ rel @ fname \<and> CHR ''/'' \<notin> set fname \<and>
      (rel = [] \<or> last rel = CHR ''/'') \<longrightarrow>
    def_path (task_definition (createYarnTask h target cmd folder u)) = rel)"
proof (intro conjI impI)
  show "cwd (task_execution (createYarnTask h target cmd folder u)) = dirname h (fsPath u)"
    by (simp add: createYarnTask_def Let_def)
  show "commandLine (task_execution (createYarnTask h target cmd folder u)) = [''npx'', ''yarn'', target]"
    by (simp add: commandLine_def createYarnTask_def getCommand_def Let_def)
next
  assume a: "path u = path (folder_uri folder) @ ''/'' @ rel @ fname \<and> CHR ''/'' \<notin> set fname \<and>
      (rel = [] \<or> last rel = CHR ''/'')"
  then have "getRelativePath folder u = rel" by (intro getRelativePath_inside [of u folder rel fname]) simp_all
  then show "def_path (task_definition (createYarnTask h target cmd folder u)) = rel"
    by (simp add: createYarnTask_def Let_def)
qed

theorem createYarnTask_fields_witness:
  "cwd (task_execution (createYarnTask hostAB ''build'' ''build'' repoFolder fileRoot)) = ''/repo'' \<and>
   path fileRoot = path (folder_uri repoFolder) @ ''/'' @ [] @ ''package.json'' \<and>
   CHR ''/'' \<notin> set ''package.json'' \<and>
   def_path (task_definition (createYarnTask hostAB ''build'' ''build'' repoFolder fileRoot)) = [] \<and>
   cwd (task_execution (createYarnTask hostAB ''test'' ''test'' repoFolder fileA)) = ''/repo/a'' \<and>
   commandLine (task_execution (createYarnTask hostAB ''test'' ''test'' repoFolder fileA)) =
     [''npx'', ''yarn'', ''test''] \<and>
   path fileA = path (folder_uri repoFolder) @ ''/'' @ ''a/'' @ ''package.json'' \<and>
   last ''a/'' = CHR ''/'' \<and>
   def_path (task_definition (createYarnTask hostAB ''test'' ''test'' repoFolder fileA)) = ''a/''"
proof -
  have d: "dirname hostAB (fsPath fileRoot) = ''/repo''" "dirname hostAB (fsPath fileA) = ''/repo/a''"
    by (simp_all add: example_defs posixDirname_def)
  have 1: "path fileRoot = path (folder_uri repoFolder) @ ''/'' @ [] @ ''package.json'' \<and>
      CHR ''/'' \<notin> set ''package.json'' \<and> ([] = [] \<or> last [] = CHR ''/'')"
    by (simp add: example_defs)
  have 2: "path fileA = path (folder_uri repoFolder) @ ''/'' @ ''a/'' @ ''package.json'' \<and>
      CHR ''/'' \<notin> set ''package.json'' \<and> (''a/'' = [] \<or> last ''a/'' = CHR ''/'')"
    by (simp add: example_defs)
  show ?thesis
    using createYarnTask_fields [of hostAB "''build''" "''build''" repoFolder fileRoot "[]" "''package.json''"]
      createYarnTask_fields [of hostAB "''test''" "''test''" repoFolder fileA "''a/''" "''package.json''"]
      d 1 2
    by simp
qed

subsection \<open>The visitor: scripts blocks\<close>

lemma visitAll_append: "visitAll (xs @ ys) st = visitAll ys (visitAll xs st)"
  by (simp add: visitAll_def)

lemma visitAll_without_errors:
  "visitAll (filter (\<lambda>e. e \<noteq> OnError) evs) st = visitAll evs st"
  by (induction evs arbitrary: st) (simp_all add: visitAll_def)

lemma visitAll_across_error:
  "visitAll (pre @ OnError # post) st = visitAll post (visitAll pre st)"
  by (simp add: visitAll_def)

lemma inScripts_dispatch:
  "inScripts (dispatch e st) =
     (case e of OnObjectProperty p offset \<Rightarrow> p = ''scripts'' \<or> inScripts st
              | OnObjectEnd \<Rightarrow> False
              | _ \<Rightarrow> inScripts st)"
  by (cases e) (simp_all add: onObjectProperty_def onLiteralValue_def onObjectEnd_def Let_def)

lemma snoc_decomposition:
  "(\<exists>pre offset post. evs @ [e] = pre @ OnObjectProperty ''scripts'' offset # post \<and>
        OnObjectEnd \<notin> set post) \<longleftrightarrow>
   (\<exists>offset. e = OnObjectProperty ''scripts'' offset) \<or>
   (e \<noteq> OnObjectEnd \<and>
    (\<exists>pre offset post. evs = pre @ OnObjectProperty ''scripts'' offset # post \<and>
        OnObjectEnd \<notin> set post))"
  (is "?L \<longleftrightarrow> ?A \<or> ?B")
proof
  assume ?L
  then obtain pre offset post where
    d: "evs @ [e] = pre @ OnObjectProperty ''scripts'' offset # post" "OnObjectEnd \<notin> set post"
    by blast
  show "?A \<or> ?B"
  proof (cases post rule: rev_cases)
    case Nil
    then have "e = OnObjectProperty ''scripts'' offset" using d(1) by simp
    then show ?thesis by blast
  next
    case (snoc post' z)
    then have "evs @ [e] = (pre @ OnObjectProperty ''scripts'' offset # post') @ [z]"
      using d(1) by simp
    then have "evs = pre @ OnObjectProperty ''scripts'' offset # post'" "e = z" by simp_all
    moreover have "z \<noteq> OnObjectEnd" "OnObjectEnd \<notin> set post'" using d(2) snoc by auto
    ultimately show ?thesis by blast
  qed
next
  assume "?A \<or> ?B"
  then show ?L
  proof
    assume ?A
    then obtain offset where "e = OnObjectProperty ''scripts'' offset" by blast
    then have "evs @ [e] = evs @ OnObjectProperty ''scripts'' offset # []" by simp
    then show ?L by (metis empty_iff empty_set)
  next
    assume ?B
    then obtain pre offset post where
      d: "e \<noteq> OnObjectEnd" "evs = pre @ OnObjectProperty ''scripts'' offset # post"
         "OnObjectEnd \<notin> set post" by blast
    then have "evs @ [e] = pre @ OnObjectProperty ''scripts'' offset # (post @ [e])"
      "OnObjectEnd \<notin> set (post @ [e])" by auto
    then show ?L by blast
  qed
qed

lemma map_of_assign: "map_of (assign obj k v) = (map_of obj)(k \<mapsto> v)"
  by (induction obj) (auto simp: fun_eq_iff)

lemma keys_assign: "set (map fst (assign obj k v)) = insert k (set (map fst obj))"
proof (induction obj)
  case Nil
  show ?case by simp
next
  case (Cons a obj)
  obtain k' v' where a: "a = (k', v')" by (cases a)
  show ?case
  proof (cases "k' = k")
    case True
    then show ?thesis by (simp add: a)
  next
    case False
    have "set (map fst (assign (a # obj) k v)) = insert k' (set (map fst (assign obj k v)))"
      using False by (simp add: a)
    also have "\<dots> = insert k' (insert k (set (map fst obj)))" unfolding Cons.IH ..
    finally show ?thesis by (auto simp: a)
  qed
qed

lemma distinct_assign:
  "distinct (map fst obj) \<Longrightarrow> distinct (map fst (assign obj k v))"
proof (induction obj)
  case Nil
  show ?case by simp
next
  case (Cons a obj)
  obtain k' v' where a: "a = (k', v')" by (cases a)
  show ?case
  proof (cases "k' = k")
    case True
    then show ?thesis using Cons.prems a by auto
  next
    case False
    have "k' \<notin> set (map fst (assign obj k v))"
      using Cons.prems a False unfolding keys_assign by simp
    then show ?thesis using Cons a False by simp
  qed
qed

lemma fold_assign:
  "map_of (fold (\<lambda>m obj. assign obj (fst (memberBinding m)) (snd (memberBinding m))) ms obj) =
     map_of obj ++ map_of (rev (map memberBinding ms)) \<and>
   set (map fst (fold (\<lambda>m obj. assign obj (fst (memberBinding m)) (snd (memberBinding m))) ms obj)) =
     set (map fst obj) \<union> set (map fst (map memberBinding ms)) \<and>
   (distinct (map fst obj) \<longrightarrow>
    distinct (map fst (fold (\<lambda>m obj. assign obj (fst (memberBinding m)) (snd (memberBinding m))) ms obj)))"
proof (induction ms arbitrary: obj)
  case Nil
  show ?case by simp
next
  case (Cons m ms)
  let ?k = "fst (memberBinding m)" and ?v = "snd (memberBinding m)"
  have "map_of (assign obj ?k ?v) ++ map_of (rev (map memberBinding ms)) =
        map_of obj ++ map_of (rev (map memberBinding (m # ms)))"
    by (simp add: map_of_assign map_add_upd_left fun_eq_iff map_add_def split: option.splits)
  then show ?case
    using Cons.IH [of "assign obj ?k ?v"] keys_assign [of obj ?k ?v]
    by (auto simp: distinct_assign)
qed

lemma scripts_block:
  assumes "inScripts st" and "\<forall>m\<in>set ms. fst m \<noteq> ''scripts'' \<and> fst m \<noteq> ''__proto__''"
  shows "inScripts (visitAll (visitProperties (map scriptMember ms)) st) \<and>
     scripts (visitAll (visitProperties (map scriptMember ms)) st) =
       fold (\<lambda>m obj. assign obj (fst (memberBinding m)) (snd (memberBinding m))) ms (scripts st)"
  using assms
proof (induction ms arbitrary: st)
  case Nil
  then show ?case by (simp add: visitAll_def)
next
  case (Cons m ms)
  obtain k ko v vo where m: "m = (k, ko, v, vo)" by (cases m)
  have k: "k \<noteq> ''scripts''" "k \<noteq> ''__proto__''" using Cons.prems(2) m by auto
  let ?st = "onLiteralValue (LString v) vo (onObjectProperty k ko st)"
  have 1: "inScripts ?st" "scripts ?st = assign (scripts st) k (LString v)"
    using Cons.prems(1) k
    by (simp_all add: onObjectProperty_def onLiteralValue_def setProperty_def propertyKey_def)
  have 2: "visitAll (visitProperties (map scriptMember (m # ms))) st =
           visitAll (visitProperties (map scriptMember ms)) ?st"
    by (simp add: m scriptMember_def visitAll_def)
  have 3: "\<forall>m\<in>set ms. fst m \<noteq> ''scripts'' \<and> fst m \<noteq> ''__proto__''" using Cons.prems(2) by simp
  show ?case
    unfolding 2 using Cons.IH [OF 1(1) 3] 1(2) by (simp add: m memberBinding_def)
qed

lemma scripts_style_extraction:
  assumes "\<forall>m\<in>set ms. fst m \<noteq> ''scripts'' \<and> fst m \<noteq> ''__proto__''"
  shows "distinct (map fst (scripts (visitAll (visitValue (scriptsDoc offset ms)) initial))) \<and>
     set (map fst (scripts (visitAll (visitValue (scriptsDoc offset ms)) initial))) = set (map fst ms) \<and>
     map_of (scripts (visitAll (visitValue (scriptsDoc offset ms)) initial)) =
       map_of (rev (map memberBinding ms))"
proof -
  let ?st = "onObjectProperty ''scripts'' offset initial"
  have s: "inScripts ?st" "scripts ?st = []"
    by (simp_all add: onObjectProperty_def initial_def)
  let ?st1 = "visitAll (visitProperties (map scriptMember ms)) ?st"
  have v: "visitAll (visitValue (scriptsDoc offset ms)) initial =
           onObjectEnd (onObjectEnd ?st1)"
    by (simp add: scriptsDoc_def visitAll_def)
  have e: "scripts (onObjectEnd (onObjectEnd ?st1)) = scripts ?st1"
    by (simp add: onObjectEnd_def)
  have f: "map fst (map memberBinding ms) = map fst ms"
    by (simp add: memberBinding_def split: prod.splits)
  show ?thesis
    unfolding v e
    using scripts_block [OF s(1) assms] fold_assign [of ms "[]"] s(2) f by simp
qed

lemma example_scripts_style:
  "docA = scriptsDoc 1 [(''build'', 13, ''tsc -p .'', 22), (''test'', 34, ''mocha'', 42)]"
  by (simp add: docA_def scriptsDoc_def scriptMember_def)

text \<open>
  Claim C3.  For a well-formed document of the scripts style the extractor is to return
  one target per distinct key of the scripts object, with the script string of its last
  occurrence.  That holds when no key is \<open>scripts\<close> or \<open>__proto__\<close>
  (\<open>scripts_style_extraction\<close>).  A script named \<open>scripts\<close> is taken for the start of a
  scripts block: \<open>script\<close> keeps the previous key, and the script string is bound to
  that key.  In \<open>{"scripts": {"build": "tsc -p .", "scripts": "ls"}}\<close> the result has no
  target \<open>scripts\<close>, and \<open>build\<close> has the value \<open>ls\<close>.
\<close>

theorem script_named_scripts_lost:
  "scripts (visitAll (visitValue docScriptNamedScripts) initial) = [(''build'', LString ''ls'')]"
  by (simp add: docScriptNamedScripts_def visitor_defs)

text \<open>
  Claim C2, as stated: \<open>inScripts\<close> is set only by a property \<open>scripts\<close> at the top level,
  and stays set until the scripts object closes, an object nested in the block not
  ending it.  In \<open>docNested\<close> the flag is already off when the scan reaches the
  property \<open>build\<close> of the scripts object, because the nested object has closed: \<open>build\<close>
  is not extracted, and the key of the nested object is.  In \<open>docDeep\<close> a property
  \<open>scripts\<close> two levels down sets the flag, and its members are extracted.
\<close>

theorem scripts_context_counterexample:
  "visitValue docNested =
     eventsNestedPrefix @ [OnObjectProperty ''build'' 32, OnLiteralValue (LString ''make'') 41,
       OnObjectEnd, OnObjectEnd] \<and>
   \<not> inScripts (visitAll eventsNestedPrefix initial) \<and>
   scripts (visitAll (visitValue docNested) initial) = [(''x'', LString ''y'')] \<and>
   visitValue docDeep =
     [OnObjectBegin, OnObjectProperty ''config'' 1, OnObjectBegin, OnObjectProperty ''scripts'' 12]
       @ [OnObjectBegin, OnObjectProperty ''x'' 24, OnLiteralValue (LString ''y'') 29,
          OnObjectEnd, OnObjectEnd, OnObjectEnd] \<and>
   inScripts (visitAll [OnObjectBegin, OnObjectProperty ''config'' 1, OnObjectBegin,
       OnObjectProperty ''scripts'' 12] initial) \<and>
   scripts (visitAll (visitValue docDeep) initial) = [(''x'', LString ''y'')]"
  by (simp add: docNested_def docDeep_def eventsNestedPrefix_def visitor_defs)

text \<open>
  Claim C2, amended: at every point of a scan \<open>inScripts\<close> is set exactly when a property
  named \<open>scripts\<close> has been met, at whatever depth, and no object has closed since then.
  So the flag is cleared by the first object end after the property, be it the end of
  the scripts object or of an object nested in it, and stays cleared until the next
  property named \<open>scripts\<close>.
\<close>

theorem inScripts_after_scan:
  "inScripts (visitAll evs initial) \<longleftrightarrow>
   (\<exists>pre offset post. evs = pre @ OnObjectProperty ''scripts'' offset # post \<and>
        OnObjectEnd \<notin> set post)"
proof (induction evs rule: rev_induct)
  case Nil
  show ?case by (simp add: visitAll_def initial_def)
next
  case (snoc e evs)
  have "inScripts (visitAll (evs @ [e]) initial) = inScripts (dispatch e (visitAll evs initial))"
    by (simp add: visitAll_def)
  also have "\<dots> \<longleftrightarrow> (\<exists>offset. e = OnObjectProperty ''scripts'' offset) \<or>
      (e \<noteq> OnObjectEnd \<and> inScripts (visitAll evs initial))"
    unfolding inScripts_dispatch by (cases e) auto
  finally show ?case unfolding snoc_decomposition snoc.IH .
qed

theorem inScripts_after_scan_witness:
  "inScripts (visitAll ([OnObjectBegin, OnObjectProperty ''scripts'' 1] @
       [OnObjectBegin, OnObjectProperty ''pre'' 13, OnObjectBegin]) initial) \<and>
   \<not> inScripts (visitAll eventsNestedPrefix initial)"
proof -
  have "\<exists>pre offset post.
      [OnObjectBegin, OnObjectProperty ''scripts'' 1] @
       [OnObjectBegin, OnObjectProperty ''pre'' 13, OnObjectBegin] =
      pre @ OnObjectProperty ''scripts'' offset # post \<and> OnObjectEnd \<notin> set post"
    by (rule exI [of _ "[OnObjectBegin]"], rule exI [of _ 1],
        rule exI [of _ "[OnObjectBegin, OnObjectProperty ''pre'' 13, OnObjectBegin]"]) simp
  then have 1: "inScripts (visitAll ([OnObjectBegin, OnObjectProperty ''scripts'' 1] @
       [OnObjectBegin, OnObjectProperty ''pre'' 13, OnObjectBegin]) initial)"
    using inScripts_after_scan by blast
  have 2: "\<not> inScripts (visitAll eventsNestedPrefix initial)"
    by (simp add: eventsNestedPrefix_def visitor_defs)
  show ?thesis using 1 2 by simp
qed

subsection \<open>The visitor: task labels\<close>

text \<open>
  Claim C1.  For a well-formed tasks array the extractor is to return one target per
  task entry with a string label, named by that label.  The visitor writes each label
  as the value of the property whose key is in \<open>script\<close>, a variable that only a scripts
  block assigns.  For \<open>docTasks\<close>, with the labels \<open>build\<close> and \<open>test\<close>, \<open>script\<close> is
  \<open>undefined\<close>: both labels are written to the one property \<open>undefined\<close>, and the
  result is a single target of that name with the last label as its value.
\<close>

theorem labels_bound_under_stale_key:
  "scripts (visitAll (visitValue docTasks) initial) = [(''undefined'', LString ''test'')]"
  by (simp add: docTasks_def visitor_defs)

subsection \<open>The visitor: scan errors\<close>

lemma keys_setProperty: "set (map fst obj) \<subseteq> set (map fst (setProperty obj k v))"
  using keys_assign [of obj "propertyKey k" v] by (auto simp: setProperty_def Let_def)

lemma keys_dispatch: "set (map fst (scripts st)) \<subseteq> set (map fst (scripts (dispatch e st)))"
proof (cases e)
  case (OnLiteralValue v offset)
  then show ?thesis
    using keys_setProperty [of "scripts st" "script st" v]
    by (auto simp: onLiteralValue_def Let_def)
next
  case (OnObjectProperty p offset)
  then show ?thesis by (simp add: onObjectProperty_def Let_def)
qed (simp_all add: onObjectEnd_def)

lemma keys_visitAll: "set (map fst (scripts st)) \<subseteq> set (map fst (scripts (visitAll evs st)))"
proof (induction evs arbitrary: st)
  case Nil
  show ?case by (simp add: visitAll_def)
next
  case (Cons e evs)
  have "visitAll (e # evs) st = visitAll evs (dispatch e st)" by (simp add: visitAll_def)
  then show ?case using keys_dispatch [of st e] Cons.IH [of "dispatch e st"] by auto
qed

text \<open>
  Claim C6, as stated: on a syntax error the scan ends and the extractor returns exactly
  the targets bound before the error.  In \<open>{"scripts": {"build": , "test": "mocha"}}\<close>
  the value of \<open>build\<close> is missing.  Nothing is bound before the error; the scan goes on
  and \<open>findTargets\<close> returns the target \<open>test\<close>, bound after it.
\<close>

theorem target_bound_after_error_counterexample:
  "readFile hostRecovered (fsPath fileA) = Some textRecovered \<and>
   visit hostRecovered textRecovered =
     [OnObjectBegin, OnObjectProperty ''scripts'' 1, OnObjectBegin, OnObjectProperty ''build'' 13]
       @ OnError # [OnObjectProperty ''test'' 24, OnLiteralValue (LString ''mocha'') 32,
                    OnObjectEnd, OnObjectEnd] \<and>
   scripts (visitAll [OnObjectBegin, OnObjectProperty ''scripts'' 1, OnObjectBegin,
       OnObjectProperty ''build'' 13] initial) = [] \<and>
   fst (findTargets hostRecovered (fsPath fileA) freshState) = Inr [(''test'', LString ''mocha'')]"
  by (simp add: findTargets_def example_defs visitor_defs Let_def)

text \<open>
  Claim C6, amended: for every text read from the file, malformed or not, \<open>findTargets\<close>
  returns a mapping and no error.  A syntax error changes nothing in the extractor and
  does not end the scan: the mapping is what all the other events of the scan bind, so
  it is what the events after an error bind on top of the events before it, and every
  target name bound before the error is in it (possibly there is none).
\<close>

theorem findTargets_ignores_scan_errors:
  assumes "readFile h p = Some text"
  shows "fst (findTargets h p s) =
           Inr (scripts (visitAll (filter (\<lambda>e. e \<noteq> OnError) (visit h text)) initial)) \<and>
         (visit h text = pre @ OnError # post \<longrightarrow>
            fst (findTargets h p s) = Inr (scripts (visitAll post (visitAll pre initial))) \<and>
            set (map fst (scripts (visitAll pre initial)))
              \<subseteq> set (map fst (scripts (visitAll post (visitAll pre initial)))))"
proof -
  have r: "fst (findTargets h p s) = Inr (scripts (visitAll (visit h text) initial))"
    using assms by (simp add: findTargets_def Let_def)
  show ?thesis
    unfolding r visitAll_without_errors
    using visitAll_across_error [of pre post initial] keys_visitAll [of "visitAll pre initial" post]
    by simp
qed

theorem findTargets_ignores_scan_errors_witness:
  "readFile hostRecovered (fsPath fileB) = Some textRecoveredSibling \<and>
   visit hostRecovered textRecoveredSibling =
     [OnObjectBegin, OnObjectProperty ''scripts'' 1, OnObjectBegin, OnObjectProperty ''build'' 13]
       @ OnError # [OnObjectProperty ''test'' 24, OnLiteralValue (LString ''mocha'') 32,
                    OnObjectEnd, OnObjectProperty ''name'' 42, OnLiteralValue (LString ''x'') 50,
                    OnObjectEnd] \<and>
   fst (findTargets hostRecovered (fsPath fileB) freshState) = Inr [(''test'', LString ''mocha'')] \<and>
   readFile hostTruncated (fsPath fileA) = Some textTruncated \<and>
   fst (findTargets hostTruncated (fsPath fileA) freshState) = Inr [] \<and>
   readFile hostTruncated (fsPath fileB) = Some textCut \<and>
   visit hostTruncated textCut =
     [OnObjectBegin, OnObjectProperty ''scripts'' 1, OnObjectBegin, OnObjectProperty ''build'' 13,
      OnLiteralValue (LString ''make'') 22, OnObjectProperty ''test'' 30]
       @ OnError # [OnObjectEnd, OnError, OnObjectEnd, OnError] \<and>
   fst (findTargets hostTruncated (fsPath fileB) freshState) = Inr [(''build'', LString ''make'')]"
proof -
  have r: "readFile hostRecovered (fsPath fileB) = Some textRecoveredSibling"
    "readFile hostTruncated (fsPath fileA) = Some textTruncated"
    "readFile hostTruncated (fsPath fileB) = Some textCut"
    by (simp_all add: example_defs)
  have v: "visit hostRecovered textRecoveredSibling =
     [OnObjectBegin, OnObjectProperty ''scripts'' 1, OnObjectBegin, OnObjectProperty ''build'' 13]
       @ OnError # [OnObjectProperty ''test'' 24, OnLiteralValue (LString ''mocha'') 32,
                    OnObjectEnd, OnObjectProperty ''name'' 42, OnLiteralValue (LString ''x'') 50,
                    OnObjectEnd]"
    "visit hostTruncated textTruncated = eventsTruncated"
    "visit hostTruncated textCut =
     [OnObjectBegin, OnObjectProperty ''scripts'' 1, OnObjectBegin, OnObjectProperty ''build'' 13,
      OnLiteralValue (LString ''make'') 22, OnObjectProperty ''test'' 30]
       @ OnError # [OnObjectEnd, OnError, OnObjectEnd, OnError]"
    by (simp_all add: example_defs)
  have 1: "fst (findTargets hostRecovered (fsPath fileB) freshState) = Inr [(''test'', LString ''mocha'')]"
    using findTargets_ignores_scan_errors [OF r(1), of freshState] unfolding v(1)
    by (simp add: visitor_defs)
  have 2: "fst (findTargets hostTruncated (fsPath fileA) freshState) = Inr []"
    using findTargets_ignores_scan_errors [OF r(2), of freshState] unfolding v(2)
    by (simp add: eventsTruncated_def visitor_defs)
  have 3: "fst (findTargets hostTruncated (fsPath fileB) freshState) = Inr [(''build'', LString ''make'')]"
    using findTargets_ignores_scan_errors [OF r(3), of freshState] unfolding v(3)
    by (simp add: visitor_defs)
  show ?thesis using 1 2 3 r v(1,3) by simp
qed

end
